theory Spec2Isabelle
  imports Complex_Main
begin

section \<open>Samples: the values of a C++ float\<close>

text \<open>
  A sample is a C++ \<^verbatim>\<open>float\<close>, an IEEE 754 binary32 number. The model keeps the four
  kinds of value: a finite number, given by its real value, the two infinities and NaN.
  Comparisons, \<^verbatim>\<open>std::abs\<close>, negation, \<^verbatim>\<open>std::min\<close> and \<^verbatim>\<open>std::max\<close> are exact.
  Every arithmetic operation, every conversion of an integer and every decimal literal
  such as \<^verbatim>\<open>0.99f\<close> is rounded to binary32, to nearest with ties to even, each operation
  on its own. Only the sign of zero is left out. The type has room for reals that are not
  binary32 numbers; what is proved for every sample holds for the floats among them, and
  the concrete inputs below are floats.
\<close>

datatype fp = Fin real | PInf | NInf | NaN

text \<open>
  Rounding to binary32. \<open>binade a b k\<close> halves \<open>b\<close> at most \<open>k\<close> times until it is at
  most \<open>a\<close>; from \<open>2 ^ 127\<close> with 253 steps this is the power of two at the bottom of the
  binade of \<open>a\<close>, and \<open>2 ^ -126\<close> for the subnormal range. The unit in the last place is
  that power divided by \<open>2 ^ 23\<close>; a value is rounded to the nearest multiple of its unit,
  to the even one on a tie, and to an infinity from \<open>2 ^ 128\<close> on.
\<close>

definition round_half_even :: "real \<Rightarrow> int" where
  "round_half_even r =
     (let f = \<lfloor>r\<rfloor>; d = r - of_int f
      in if d < 1 / 2 then f else if 1 / 2 < d then f + 1 else if even f then f else f + 1)"

primrec binade :: "real \<Rightarrow> real \<Rightarrow> nat \<Rightarrow> real" where
  "binade a b 0 = b"
| "binade a b (Suc k) = (if b \<le> a then b else binade a (b / 2) k)"

definition ulp32 :: "real \<Rightarrow> real" where
  "ulp32 x = binade \<bar>x\<bar> (2 ^ 127) 253 / 2 ^ 23"

definition round32 :: "real \<Rightarrow> fp" where
  "round32 x =
     (let u = ulp32 x; r = of_int (round_half_even (x / u)) * u
      in if 2 ^ 128 \<le> r then PInf else if r \<le> - (2 ^ 128) then NInf else Fin r)"

text \<open>\<^verbatim>\<open>a < b\<close> on floats: false as soon as one side is NaN.\<close>

fun flt :: "fp \<Rightarrow> fp \<Rightarrow> bool" where
  "flt NaN b = False"
| "flt a NaN = False"
| "flt (Fin a) (Fin b) = (a < b)"
| "flt (Fin a) PInf = True"
| "flt (Fin a) NInf = False"
| "flt PInf b = False"
| "flt NInf NInf = False"
| "flt NInf b = True"

text \<open>\<^verbatim>\<open>a <= b\<close> on floats.\<close>

fun fle :: "fp \<Rightarrow> fp \<Rightarrow> bool" where
  "fle NaN b = False"
| "fle a NaN = False"
| "fle (Fin a) (Fin b) = (a \<le> b)"
| "fle (Fin a) PInf = True"
| "fle (Fin a) NInf = False"
| "fle PInf PInf = True"
| "fle PInf b = False"
| "fle NInf b = True"

text \<open>Unary minus and \<^verbatim>\<open>std::abs\<close>.\<close>

fun fneg :: "fp \<Rightarrow> fp" where
  "fneg (Fin a) = Fin (- a)"
| "fneg PInf = NInf"
| "fneg NInf = PInf"
| "fneg NaN = NaN"

fun fabs :: "fp \<Rightarrow> fp" where
  "fabs (Fin a) = Fin \<bar>a\<bar>"
| "fabs PInf = PInf"
| "fabs NInf = PInf"
| "fabs NaN = NaN"

text \<open>
  Multiplication, addition, subtraction and division. NaN is contagious, an infinity
  times zero and the difference of two equal infinities are NaN; a finite result is
  rounded.
\<close>

fun fmul :: "fp \<Rightarrow> fp \<Rightarrow> fp" where
  "fmul NaN b = NaN"
| "fmul a NaN = NaN"
| "fmul (Fin a) (Fin b) = round32 (a * b)"
| "fmul (Fin a) PInf = (if a = 0 then NaN else if 0 < a then PInf else NInf)"
| "fmul (Fin a) NInf = (if a = 0 then NaN else if 0 < a then NInf else PInf)"
| "fmul PInf (Fin b) = (if b = 0 then NaN else if 0 < b then PInf else NInf)"
| "fmul NInf (Fin b) = (if b = 0 then NaN else if 0 < b then NInf else PInf)"
| "fmul PInf PInf = PInf"
| "fmul PInf NInf = NInf"
| "fmul NInf PInf = NInf"
| "fmul NInf NInf = PInf"

fun fadd :: "fp \<Rightarrow> fp \<Rightarrow> fp" where
  "fadd NaN b = NaN"
| "fadd a NaN = NaN"
| "fadd (Fin a) (Fin b) = round32 (a + b)"
| "fadd (Fin a) PInf = PInf"
| "fadd (Fin a) NInf = NInf"
| "fadd PInf NInf = NaN"
| "fadd PInf b = PInf"
| "fadd NInf PInf = NaN"
| "fadd NInf b = NInf"

definition fsub :: "fp \<Rightarrow> fp \<Rightarrow> fp" where
  "fsub a b = fadd a (fneg b)"

text \<open>
  Division. The only divisor in this program is a sample count that is at least one;
  a zero divisor is taken as \<^verbatim>\<open>+0\<close>.
\<close>

fun fdiv :: "fp \<Rightarrow> fp \<Rightarrow> fp" where
  "fdiv NaN b = NaN"
| "fdiv a NaN = NaN"
| "fdiv (Fin a) (Fin b) =
     (if b = 0 then (if a = 0 then NaN else if 0 < a then PInf else NInf)
      else round32 (a / b))"
| "fdiv (Fin a) PInf = Fin 0"
| "fdiv (Fin a) NInf = Fin 0"
| "fdiv PInf (Fin b) = (if 0 \<le> b then PInf else NInf)"
| "fdiv NInf (Fin b) = (if 0 \<le> b then NInf else PInf)"
| "fdiv PInf b = NaN"
| "fdiv NInf b = NaN"

text \<open>The conversion \<^verbatim>\<open>(float)i\<close> of a \<^verbatim>\<open>size_t\<close>.\<close>

definition float_of_size :: "nat \<Rightarrow> fp" where
  "float_of_size i = round32 (real i)"

text \<open>
  \<^verbatim>\<open>std::min(a, b)\<close> is \<^verbatim>\<open>(b < a) ? b : a\<close> and \<^verbatim>\<open>std::max(a, b)\<close> is
  \<^verbatim>\<open>(a < b) ? b : a\<close>: with a NaN on either side the first argument comes back.
\<close>

definition std_min :: "fp \<Rightarrow> fp \<Rightarrow> fp" where
  "std_min a b = (if flt b a then b else a)"

definition std_max :: "fp \<Rightarrow> fp \<Rightarrow> fp" where
  "std_max a b = (if flt a b then b else a)"

section \<open>The effect stages (dsp/fx\_graph.cpp)\<close>

text \<open>
  A stage receives \<^verbatim>\<open>float* buffer\<close> and \<^verbatim>\<open>size_t numSamples\<close> and works in place.
  The buffer is the list of the samples the pointer gives access to; the code reads and
  writes the indices below \<^verbatim>\<open>numSamples\<close>, which the caller keeps within the buffer
  (\<open>numSamples \<le> length buffer\<close>). Each loop is a recursion on its index.
\<close>

type_synonym buffer = "fp list"

text \<open>AcousticEchoCanceller::process: a noise gate with threshold \<^verbatim>\<open>0.005f\<close>.\<close>

definition threshold :: fp where
  "threshold = round32 0.005"

function aec_loop :: "buffer \<Rightarrow> nat \<Rightarrow> nat \<Rightarrow> buffer" where
  "aec_loop buffer numSamples i =
     (if i < numSamples
      then aec_loop (if flt (fabs (buffer ! i)) threshold then buffer[i := Fin 0] else buffer)
             numSamples (Suc i)
      else buffer)"
  by pat_completeness auto
termination
  by (relation "measure (\<lambda>(buffer, numSamples, i). numSamples - i)") auto

declare aec_loop.simps [simp del]

definition AcousticEchoCanceller_process :: "buffer \<Rightarrow> nat \<Rightarrow> buffer" where
  "AcousticEchoCanceller_process buffer numSamples = aec_loop buffer numSamples 0"

text \<open>
  NoiseSuppressor::process: the loop starts at index 1 and reads \<^verbatim>\<open>buffer[i-1]\<close>
  after the previous iteration has written it.
\<close>

function ns_loop :: "buffer \<Rightarrow> nat \<Rightarrow> nat \<Rightarrow> buffer" where
  "ns_loop buffer numSamples i =
     (if i < numSamples
      then ns_loop
             (buffer[i := fadd (fmul (buffer ! i) (round32 0.95))
                               (fmul (buffer ! (i - 1)) (round32 0.05))])
             numSamples (Suc i)
      else buffer)"
  by pat_completeness auto
termination
  by (relation "measure (\<lambda>(buffer, numSamples, i). numSamples - i)") auto

declare ns_loop.simps [simp del]

definition NoiseSuppressor_process :: "buffer \<Rightarrow> nat \<Rightarrow> buffer" where
  "NoiseSuppressor_process buffer numSamples = ns_loop buffer numSamples 1"

text \<open>MultibandCompressor::process: the peak limiter with \<^verbatim>\<open>limit = 0.99f\<close>.\<close>

definition limit :: fp where
  "limit = round32 0.99"

function compressor_loop :: "buffer \<Rightarrow> nat \<Rightarrow> nat \<Rightarrow> buffer" where
  "compressor_loop buffer numSamples i =
     (if i < numSamples
      then compressor_loop
             (buffer[i := std_max (fneg limit) (std_min limit (buffer ! i))])
             numSamples (Suc i)
      else buffer)"
  by pat_completeness auto
termination
  by (relation "measure (\<lambda>(buffer, numSamples, i). numSamples - i)") auto

declare compressor_loop.simps [simp del]

definition MultibandCompressor_process :: "buffer \<Rightarrow> nat \<Rightarrow> buffer" where
  "MultibandCompressor_process buffer numSamples = compressor_loop buffer numSamples 0"

text \<open>
  PacketLossConcealer: the only stage with a field, \<^verbatim>\<open>isActive\<close>, set by
  \<^verbatim>\<open>activate\<close> and \<^verbatim>\<open>deactivate\<close>. While active, process fades the packet out.
\<close>

record PacketLossConcealer =
  isActive :: bool

definition activate :: "PacketLossConcealer \<Rightarrow> PacketLossConcealer" where
  "activate p = p\<lparr>isActive := True\<rparr>"

definition deactivate :: "PacketLossConcealer \<Rightarrow> PacketLossConcealer" where
  "deactivate p = p\<lparr>isActive := False\<rparr>"

function plc_loop :: "buffer \<Rightarrow> nat \<Rightarrow> nat \<Rightarrow> buffer" where
  "plc_loop buffer numSamples i =
     (if i < numSamples
      then plc_loop
             (buffer[i := fmul (buffer ! i)
                            (fsub (Fin 1) (fdiv (float_of_size i) (float_of_size numSamples)))])
             numSamples (Suc i)
      else buffer)"
  by pat_completeness auto
termination
  by (relation "measure (\<lambda>(buffer, numSamples, i). numSamples - i)") auto

declare plc_loop.simps [simp del]

definition PacketLossConcealer_process :: "PacketLossConcealer \<Rightarrow> buffer \<Rightarrow> nat \<Rightarrow> buffer" where
  "PacketLossConcealer_process p buffer numSamples =
     (if isActive p then plc_loop buffer numSamples 0 else buffer)"

section \<open>The stability controller (security/lock\_manager.cpp)\<close>

datatype RVCPrecision = FP32 | FP16 | INT8

text \<open>
  The fields of LockManager that the degradation state machine uses. The mode of the
  controller is the field \<^verbatim>\<open>isDegradationActive_\<close>: Degraded when it is true, Normal
  when it is false. forceDegradation and restorePerformance run under
  \<^verbatim>\<open>stateMutex_\<close>, so each is one atomic step on the record. A member \<^verbatim>\<open>x_\<close> of a
  C++ class is the field \<open>x_m\<close> of its record, here and below.
\<close>

record LockManager =
  isDegradationActive_m :: bool
  isPLCActive_m :: bool
  currentRVCPrecision_m :: RVCPrecision

text \<open>The constructor LockManager::LockManager.\<close>

definition LockManager_new :: LockManager where
  "LockManager_new =
     \<lparr>isDegradationActive_m = False, isPLCActive_m = False, currentRVCPrecision_m = FP32\<rparr>"

definition forceDegradation :: "LockManager \<Rightarrow> LockManager" where
  "forceDegradation lm =
     (if isDegradationActive_m lm then lm
      else lm\<lparr>isDegradationActive_m := True, currentRVCPrecision_m := FP16, isPLCActive_m := True\<rparr>)"

definition restorePerformance :: "LockManager \<Rightarrow> LockManager" where
  "restorePerformance lm =
     (if \<not> isDegradationActive_m lm then lm
      else lm\<lparr>isDegradationActive_m := False, currentRVCPrecision_m := FP32, isPLCActive_m := False\<rparr>)"

definition isDegradationModeActive :: "LockManager \<Rightarrow> bool" where
  "isDegradationModeActive lm = isDegradationActive_m lm"

definition isPLCActive :: "LockManager \<Rightarrow> bool" where
  "isPLCActive lm = isPLCActive_m lm"

definition getCurrentPrecision :: "LockManager \<Rightarrow> RVCPrecision" where
  "getCurrentPrecision lm = currentRVCPrecision_m lm"

text \<open>
  The callers of the controller: a history is the list of the transition calls made on
  the singleton since its construction, oldest first.
\<close>

datatype transition_call = ForceDegradation | RestorePerformance

fun apply_call :: "LockManager \<Rightarrow> transition_call \<Rightarrow> LockManager" where
  "apply_call lm ForceDegradation = forceDegradation lm"
| "apply_call lm RestorePerformance = restorePerformance lm"

definition after_calls :: "transition_call list \<Rightarrow> LockManager" where
  "after_calls cs = foldl apply_call LockManager_new cs"

section \<open>The effects graph (dsp/fx\_graph.cpp)\<close>

text \<open>
  FXGraph owns the four stages; only the concealer has state. The constructor sets
  \<^verbatim>\<open>isInitialized_\<close> and nothing resets it.
\<close>

record FXGraph =
  isInitialized_m :: bool
  sampleRate_m :: int
  plc_m :: PacketLossConcealer

definition FXGraph_new :: "int \<Rightarrow> FXGraph" where
  "FXGraph_new sampleRate =
     \<lparr>isInitialized_m = True, sampleRate_m = sampleRate, plc_m = \<lparr>isActive = False\<rparr>\<rparr>"

definition applyAcousticPreprocessing :: "FXGraph \<Rightarrow> buffer \<Rightarrow> nat \<Rightarrow> buffer" where
  "applyAcousticPreprocessing g buffer numSamples =
     (if \<not> isInitialized_m g then buffer
      else NoiseSuppressor_process (AcousticEchoCanceller_process buffer numSamples) numSamples)"

text \<open>
  applyPostProcessing reads the singleton LockManager, passed here as an argument, and
  returns the graph (the concealer's flag is written) with the buffer.
\<close>

definition applyPostProcessing :: "LockManager \<Rightarrow> FXGraph \<Rightarrow> buffer \<Rightarrow> nat \<Rightarrow> FXGraph \<times> buffer" where
  "applyPostProcessing lm g buffer numSamples =
     (if \<not> isInitialized_m g then (g, buffer)
      else if isPLCActive lm
      then (let p = activate (plc_m g)
            in (g\<lparr>plc_m := p\<rparr>, PacketLossConcealer_process p buffer numSamples))
      else (let p = deactivate (plc_m g)
            in (g\<lparr>plc_m := p\<rparr>, MultibandCompressor_process buffer numSamples)))"

definition applyLowPowerDSP :: "FXGraph \<Rightarrow> buffer \<Rightarrow> nat \<Rightarrow> buffer" where
  "applyLowPowerDSP g buffer numSamples =
     (if \<not> isInitialized_m g then buffer
      else MultibandCompressor_process (AcousticEchoCanceller_process buffer numSamples) numSamples)"

section \<open>The inference engine manager (inference/ie\_manager.cpp)\<close>

text \<open>
  Modelled from the spec: the header inference/ie\_manager.h, which declares the
  enumerations ModelType, EngineType and DelegateType, is not among the sources. The
  constructors are the enumerators that ie\_manager.cpp names.
\<close>

datatype ModelType = ModelType_TFLITE | ModelType_ONNX | ModelType_UNKNOWN

datatype EngineType = EngineType_TFLITE | EngineType_ONNX

datatype DelegateType = DSP | GPU | CPU

text \<open>
  A backend, as the manager uses it: \<^verbatim>\<open>loadModel\<close>, \<^verbatim>\<open>benchmark\<close> and \<^verbatim>\<open>run\<close>.
  The file stands in for the two runtimes with the stub classes TFLiteEngine and
  ONNXEngine; the manager holds one of each.
\<close>

record Engine =
  engine_loadModel :: "string \<Rightarrow> nat \<Rightarrow> int \<Rightarrow> bool"
  engine_benchmark :: fp
  engine_run :: "buffer \<Rightarrow> nat \<Rightarrow> buffer"

definition TFLiteEngine :: Engine where
  "TFLiteEngine =
     \<lparr>engine_loadModel = (\<lambda>path bufferSize sampleRate. True),
      engine_benchmark = Fin 15,
      engine_run = (\<lambda>buffer numSamples. buffer)\<rparr>"

definition ONNXEngine :: Engine where
  "ONNXEngine =
     \<lparr>engine_loadModel = (\<lambda>path bufferSize sampleRate. True),
      engine_benchmark = Fin 18,
      engine_run = (\<lambda>buffer numSamples. buffer)\<rparr>"

record InferenceEngineManager =
  tfliteEngine_m :: Engine
  onnxEngine_m :: Engine
  isModelLoaded_m :: bool
  currentModelPath_m :: string
  currentEngine_m :: EngineType
  currentDelegate_m :: DelegateType

definition unloadModel :: "InferenceEngineManager \<Rightarrow> InferenceEngineManager" where
  "unloadModel m = m\<lparr>isModelLoaded_m := False, currentModelPath_m := []\<rparr>"

text \<open>\<^verbatim>\<open>path.substr(path.length() - k)\<close> is the suffix of the last \<open>k\<close> characters.\<close>

definition determineModelType :: "string \<Rightarrow> ModelType" where
  "determineModelType path =
     (if length path \<ge> 7 \<and> drop (length path - 7) path = ''.tflite'' then ModelType_TFLITE
      else if length path \<ge> 5 \<and> drop (length path - 5) path = ''.onnx'' then ModelType_ONNX
      else ModelType_UNKNOWN)"

text \<open>
  The decision at the end of benchmarkAllDelegates, as a function of its three local
  variables \<^verbatim>\<open>dspTime\<close>, \<^verbatim>\<open>gpuTime\<close> and \<^verbatim>\<open>cpuTime\<close>.
\<close>

definition selectDelegate :: "fp \<Rightarrow> fp \<Rightarrow> fp \<Rightarrow> DelegateType" where
  "selectDelegate dspTime gpuTime cpuTime =
     (if flt dspTime gpuTime \<and> flt dspTime cpuTime \<and> fle dspTime (Fin 20) then DSP
      else if flt gpuTime cpuTime \<and> fle gpuTime (Fin 20) then GPU
      else CPU)"

text \<open>
  The selection rule in the words of the specification, to compare with the code: the
  delegate with the lowest latency among those within the ceiling of 20 ms, the first of
  DSP, GPU, CPU on a tie, and CPU when no latency is within the ceiling.
\<close>

definition spec_selectDelegate :: "real \<Rightarrow> real \<Rightarrow> real \<Rightarrow> DelegateType" where
  "spec_selectDelegate dspTime gpuTime cpuTime =
     (let lowest = min dspTime (min gpuTime cpuTime)
      in if \<not> lowest \<le> 20 then CPU
         else if dspTime = lowest then DSP
         else if gpuTime = lowest then GPU
         else CPU)"

definition benchmarkAllDelegates ::
    "InferenceEngineManager \<Rightarrow> string \<Rightarrow> nat \<Rightarrow> int \<Rightarrow> DelegateType" where
  "benchmarkAllDelegates m modelPath bufferSize sampleRate =
     (let dspTime = engine_benchmark (tfliteEngine_m m);
          gpuTime = engine_benchmark (onnxEngine_m m);
          cpuTime = Fin 25
      in selectDelegate dspTime gpuTime cpuTime)"

definition loadModel ::
    "InferenceEngineManager \<Rightarrow> string \<Rightarrow> nat \<Rightarrow> int \<Rightarrow> bool \<times> InferenceEngineManager" where
  "loadModel m modelPath bufferSize sampleRate =
     (let m1 = (if isModelLoaded_m m then unloadModel m else m);
          type = determineModelType modelPath;
          m2 = m1\<lparr>currentModelPath_m := modelPath\<rparr>;
          bestDelegate = benchmarkAllDelegates m2 modelPath bufferSize sampleRate;
          m3 = m2\<lparr>currentDelegate_m := bestDelegate\<rparr>;
          (loadSuccess, m4) =
            (if type = ModelType_TFLITE
             then (engine_loadModel (tfliteEngine_m m3) modelPath bufferSize sampleRate,
                   m3\<lparr>currentEngine_m := EngineType_TFLITE\<rparr>)
             else if type = ModelType_ONNX
             then (engine_loadModel (onnxEngine_m m3) modelPath bufferSize sampleRate,
                   m3\<lparr>currentEngine_m := EngineType_ONNX\<rparr>)
             else (False, m3))
      in if loadSuccess then (True, m4\<lparr>isModelLoaded_m := True\<rparr>) else (False, m4))"

definition runInference :: "InferenceEngineManager \<Rightarrow> buffer \<Rightarrow> nat \<Rightarrow> buffer" where
  "runInference m buffer numSamples =
     (if \<not> isModelLoaded_m m then buffer
      else if currentEngine_m m = EngineType_TFLITE
      then engine_run (tfliteEngine_m m) buffer numSamples
      else if currentEngine_m m = EngineType_ONNX
      then engine_run (onnxEngine_m m) buffer numSamples
      else buffer)"

section \<open>Rounding to binary32\<close>

text \<open>
  The search for the binade, in closed form: it stops at the first power of two that is
  at most the value, and at the last one when none is.
\<close>

lemma binade_eq:
  "j \<le> k \<Longrightarrow> (j < k \<Longrightarrow> b / 2 ^ j \<le> a) \<Longrightarrow> (0 < j \<Longrightarrow> a < b / 2 ^ (j - 1)) \<Longrightarrow> 0 < b \<Longrightarrow>
     binade a b k = b / 2 ^ j"
proof (induction j arbitrary: b k)
  case 0
  then show ?case by (cases k) simp_all
next
  case (Suc j)
  then obtain k' where k: "k = Suc k'" by (cases k) simp_all
  have "b / 2 ^ j \<le> b"
    using Suc.prems(4) by (simp add: field_simps)
  with Suc.prems(3) have nb: "\<not> b \<le> a" by simp
  have "binade a (b / 2) k' = b / 2 / 2 ^ j"
  proof (rule Suc.IH)
    show "j \<le> k'" using Suc.prems(1) k by simp
    show "b / 2 / 2 ^ j \<le> a" if "j < k'"
      using Suc.prems(2) that k by simp
    show "a < b / 2 / 2 ^ (j - 1)" if "0 < j"
    proof -
      from that obtain j' where "j = Suc j'" by (cases j) simp_all
      with Suc.prems(3) show ?thesis by simp
    qed
    show "0 < b / 2" using Suc.prems(4) by simp
  qed
  with nb k show ?case by simp
qed

lemma ulp32_normal:
  assumes "j \<le> 252" and "2 ^ 127 / 2 ^ j \<le> \<bar>x\<bar>" and "\<bar>x\<bar> < 2 * (2 ^ 127 / 2 ^ j)"
  shows "ulp32 x = 2 ^ 127 / 2 ^ j / 2 ^ 23"
proof -
  have "binade \<bar>x\<bar> (2 ^ 127) 253 = 2 ^ 127 / 2 ^ j"
  proof (rule binade_eq)
    show "j \<le> 253" using assms(1) by simp
    show "2 ^ 127 / 2 ^ j \<le> \<bar>x\<bar>" by (rule assms(2))
    show "\<bar>x\<bar> < 2 ^ 127 / 2 ^ (j - 1)" if "0 < j"
    proof -
      from that obtain j' where "j = Suc j'" by (cases j) simp_all
      with assms(3) show ?thesis by simp
    qed
    show "(0::real) < 2 ^ 127" by simp
  qed
  then show ?thesis by (simp add: ulp32_def)
qed

lemma ulp32_tiny:
  assumes "\<bar>x\<bar> < 2 ^ 127 / 2 ^ 252"
  shows "ulp32 x = 2 ^ 127 / 2 ^ 253 / 2 ^ 23"
proof -
  have "binade \<bar>x\<bar> (2 ^ 127) 253 = 2 ^ 127 / 2 ^ 253"
    by (rule binade_eq) (use assms in simp_all)
  then show ?thesis by (simp add: ulp32_def)
qed

lemma round32_normal:
  assumes "j \<le> 252" and "2 ^ 127 / 2 ^ j \<le> \<bar>x\<bar>" and "\<bar>x\<bar> < 2 * (2 ^ 127 / 2 ^ j)"
  shows "round32 x =
     (let u = 2 ^ 127 / 2 ^ j / 2 ^ 23; r = real_of_int (round_half_even (x / u)) * u
      in if 2 ^ 128 \<le> r then PInf else if r \<le> - (2 ^ 128) then NInf else Fin r)"
  by (simp only: round32_def ulp32_normal [OF assms])

text \<open>Zero, one and two are binary32 numbers.\<close>

lemma round32_0: "round32 0 = Fin 0"
  by (simp add: round32_def ulp32_tiny round_half_even_def)

lemma round32_1: "round32 1 = Fin 1"
  by (subst round32_normal [of 127]) (simp_all add: round_half_even_def Let_def)

lemma round32_2: "round32 2 = Fin 2"
  by (subst round32_normal [of 126]) (simp_all add: round_half_even_def Let_def)

text \<open>The four decimal literals of the effect stages, as binary32 numbers.\<close>

lemma round32_0_99: "round32 0.99 = Fin (4152361 / 4194304)"
  by (subst round32_normal [of 128]) (simp_all add: round_half_even_def Let_def)

lemma round32_0_95: "round32 0.95 = Fin (15938355 / 16777216)"
  by (subst round32_normal [of 128]) (simp_all add: round_half_even_def Let_def)

lemma round32_0_05: "round32 0.05 = Fin (13421773 / 268435456)"
  by (subst round32_normal [of 132]) (simp_all add: round_half_even_def Let_def)

lemma round32_0_005: "round32 0.005 = Fin (5368709 / 1073741824)"
  by (subst round32_normal [of 135]) (simp_all add: round_half_even_def Let_def)

lemma limit_value: "limit = Fin (4152361 / 4194304)"
  by (simp only: limit_def round32_0_99)

lemma threshold_value: "threshold = Fin (5368709 / 1073741824)"
  by (simp only: threshold_def round32_0_005)

section \<open>The compressor/limiter stage\<close>

text \<open>
  The loop of MultibandCompressor::process, from index \<open>i\<close> on: the length is kept, and
  a sample below \<open>numSamples\<close> is replaced by its clamped value, a function of that
  sample alone.
\<close>

lemma compressor_loop_length: "length (compressor_loop b n i) = length b"
  by (induction b n i rule: compressor_loop.induct) (subst compressor_loop.simps, simp)

lemma compressor_loop_nth:
  "j < length b \<Longrightarrow>
     compressor_loop b n i ! j =
       (if i \<le> j \<and> j < n then std_max (fneg limit) (std_min limit (b ! j)) else b ! j)"
proof (induction b n i rule: compressor_loop.induct)
  case (1 buffer numSamples i)
  show ?case
  proof (cases "i < numSamples")
    case True
    with 1 show ?thesis
      by (subst compressor_loop.simps) (cases "j = i"; simp)
  next
    case False
    then show ?thesis by (subst compressor_loop.simps) auto
  qed
qed

lemma limiter_sample_value:
  "std_max (fneg limit) (std_min limit x) =
     (case x of Fin a \<Rightarrow> Fin (max (- (4152361 / 4194304)) (min (4152361 / 4194304) a))
      | PInf \<Rightarrow> Fin (4152361 / 4194304)
      | NInf \<Rightarrow> Fin (- (4152361 / 4194304))
      | NaN \<Rightarrow> Fin (4152361 / 4194304))"
  by (cases x) (auto simp: std_max_def std_min_def limit_value)

lemma limiter_sample_bounded:
  "fle (fabs (std_max (fneg limit) (std_min limit x))) limit"
  unfolding limiter_sample_value unfolding limit_value by (cases x) auto

lemma limiter_sample_idem:
  "std_max (fneg limit) (std_min limit (std_max (fneg limit) (std_min limit x))) =
     std_max (fneg limit) (std_min limit x)"
  by (cases x) (auto simp: std_max_def std_min_def limit_value)

lemma MultibandCompressor_process_length:
  "length (MultibandCompressor_process b n) = length b"
  by (simp add: MultibandCompressor_process_def compressor_loop_length)

lemma MultibandCompressor_process_nth:
  "j < length b \<Longrightarrow>
     MultibandCompressor_process b n ! j =
       (if j < n then std_max (fneg limit) (std_min limit (b ! j)) else b ! j)"
  by (simp add: MultibandCompressor_process_def compressor_loop_nth)

text \<open>
  Claim C4, as stated, fails by the rounding of the literal: \<^verbatim>\<open>0.99f\<close> is the binary32
  number 4152361/4194304, a little above 0.99. On the sample 2.0 the stage writes that
  number, and its absolute value is not at most 0.99.
\<close>

theorem limiter_bound_counterexample:
  "round32 2 = Fin 2
   \<and> MultibandCompressor_process [Fin 2] 1 = [Fin (4152361 / 4194304)]
   \<and> \<not> fle (fabs (Fin (4152361 / 4194304))) (Fin 0.99)"
  by (simp add: round32_2 MultibandCompressor_process_def compressor_loop.simps
      std_max_def std_min_def limit_value)

text \<open>
  Claim C4, amended. Every sample written by the compressor/limiter stage has an absolute
  value of at most \<^verbatim>\<open>limit\<close>, the binary32 number 4152361/4194304 that \<^verbatim>\<open>0.99f\<close>
  denotes, whatever the input (a NaN included: \<^verbatim>\<open>std::min(limit, NaN)\<close> is
  \<^verbatim>\<open>limit\<close>). The stage is a per-sample function: the sample written at an index is
  \<^verbatim>\<open>std::max(-limit, std::min(limit, x))\<close> of the sample \<open>x\<close> read there, so two calls on
  any buffers write the same value wherever they read the same value; the stage has no
  field and takes no state.
\<close>

theorem limiter_output_within_limit_per_sample:
  assumes "numSamples \<le> length buffer" and "i < numSamples"
  shows "fle (fabs (MultibandCompressor_process buffer numSamples ! i)) limit
       \<and> limit = Fin (4152361 / 4194304)
       \<and> MultibandCompressor_process buffer numSamples ! i =
           std_max (fneg limit) (std_min limit (buffer ! i))
       \<and> (\<forall>buffer' numSamples' i'.
             numSamples' \<le> length buffer' \<and> i' < numSamples' \<and> buffer' ! i' = buffer ! i \<longrightarrow>
             MultibandCompressor_process buffer' numSamples' ! i' =
               MultibandCompressor_process buffer numSamples ! i)"
proof -
  from assms have out: "MultibandCompressor_process buffer numSamples ! i =
      std_max (fneg limit) (std_min limit (buffer ! i))"
    by (simp add: MultibandCompressor_process_nth)
  have bound: "fle (fabs (MultibandCompressor_process buffer numSamples ! i)) limit"
    unfolding out by (rule limiter_sample_bounded)
  have other: "MultibandCompressor_process buffer' numSamples' ! i' =
      MultibandCompressor_process buffer numSamples ! i"
    if "numSamples' \<le> length buffer' \<and> i' < numSamples' \<and> buffer' ! i' = buffer ! i"
    for buffer' numSamples' i'
    using that out by (simp add: MultibandCompressor_process_nth)
  from out bound other limit_value show ?thesis by blast
qed

theorem limiter_output_within_limit_per_sample_witness:
  "(2::nat) \<le> length [Fin 2, NaN] \<and> (1::nat) < 2
   \<and> fle (fabs (MultibandCompressor_process [Fin 2, NaN] 2 ! 1)) (Fin (4152361 / 4194304))
   \<and> MultibandCompressor_process [Fin 2, NaN] 2 ! 1 = Fin (4152361 / 4194304)
   \<and> MultibandCompressor_process [PInf, NaN, NInf] 3 ! 1 = MultibandCompressor_process [Fin 2, NaN] 2 ! 1"
proof -
  have h: "(2::nat) \<le> length [Fin 2, NaN]" "(1::nat) < 2"
    by simp_all
  note w = limiter_output_within_limit_per_sample [OF h]
  from w have b: "fle (fabs (MultibandCompressor_process [Fin 2, NaN] 2 ! 1)) limit"
    by (rule conjunct1)
  from w have v: "MultibandCompressor_process [Fin 2, NaN] 2 ! 1 =
      std_max (fneg limit) (std_min limit ([Fin 2, NaN] ! 1))"
    by (rule conjunct2 [THEN conjunct2, THEN conjunct1])
  from w have p: "\<forall>buffer' numSamples' i'.
      numSamples' \<le> length buffer' \<and> i' < numSamples' \<and> buffer' ! i' = [Fin 2, NaN] ! 1 \<longrightarrow>
      MultibandCompressor_process buffer' numSamples' ! i' =
        MultibandCompressor_process [Fin 2, NaN] 2 ! 1"
    by (rule conjunct2 [THEN conjunct2, THEN conjunct2])
  from b have b': "fle (fabs (MultibandCompressor_process [Fin 2, NaN] 2 ! 1)) (Fin (4152361 / 4194304))"
    by (simp only: limit_value)
  from v have v': "MultibandCompressor_process [Fin 2, NaN] 2 ! 1 = Fin (4152361 / 4194304)"
    by (simp add: std_max_def std_min_def limit_value)
  have q: "MultibandCompressor_process [PInf, NaN, NInf] 3 ! 1 =
      MultibandCompressor_process [Fin 2, NaN] 2 ! 1"
    using p [rule_format, of 3 "[PInf, NaN, NInf]" 1] by simp
  from h b' v' q show ?thesis by blast
qed

text \<open>
  Claim C10. The compressor/limiter stage is idempotent: a second pass over the same
  samples leaves the buffer as the first pass wrote it.
\<close>

theorem limiter_idempotent:
  assumes "numSamples \<le> length buffer"
  shows "MultibandCompressor_process (MultibandCompressor_process buffer numSamples) numSamples =
         MultibandCompressor_process buffer numSamples"
  by (rule nth_equalityI)
     (simp_all add: MultibandCompressor_process_length MultibandCompressor_process_nth
        limiter_sample_idem)

theorem limiter_idempotent_witness:
  "(3::nat) \<le> length [Fin 2, NaN, Fin (- 5), Fin 0.25]
   \<and> MultibandCompressor_process [Fin 2, NaN, Fin (- 5), Fin 0.25] 3 =
       [Fin (4152361 / 4194304), Fin (4152361 / 4194304), Fin (- (4152361 / 4194304)), Fin 0.25]
   \<and> MultibandCompressor_process
        [Fin (4152361 / 4194304), Fin (4152361 / 4194304), Fin (- (4152361 / 4194304)), Fin 0.25] 3 =
       [Fin (4152361 / 4194304), Fin (4152361 / 4194304), Fin (- (4152361 / 4194304)), Fin 0.25]"
proof -
  have ev: "MultibandCompressor_process [Fin 2, NaN, Fin (- 5), Fin 0.25] 3 =
       [Fin (4152361 / 4194304), Fin (4152361 / 4194304), Fin (- (4152361 / 4194304)), Fin 0.25]"
    by (simp add: MultibandCompressor_process_def compressor_loop.simps
        std_max_def std_min_def limit_value)
  show ?thesis
    using limiter_idempotent [of 3 "[Fin 2, NaN, Fin (- 5), Fin 0.25]"] ev by simp
qed

section \<open>The degradation state machine\<close>

text \<open>
  The invariant of the controller, on the fields: it holds after the constructor and
  each transition call keeps it.
\<close>

lemma apply_call_invariant:
  assumes "isPLCActive_m lm = isDegradationActive_m lm"
    and "currentRVCPrecision_m lm = (if isDegradationActive_m lm then FP16 else FP32)"
  shows "isPLCActive_m (apply_call lm c) = isDegradationActive_m (apply_call lm c)
       \<and> currentRVCPrecision_m (apply_call lm c) =
           (if isDegradationActive_m (apply_call lm c) then FP16 else FP32)"
  using assms by (cases c) (simp_all add: forceDegradation_def restorePerformance_def)

lemma foldl_apply_call_invariant:
  assumes "isPLCActive_m lm = isDegradationActive_m lm"
    and "currentRVCPrecision_m lm = (if isDegradationActive_m lm then FP16 else FP32)"
  shows "isPLCActive_m (foldl apply_call lm cs) = isDegradationActive_m (foldl apply_call lm cs)
       \<and> currentRVCPrecision_m (foldl apply_call lm cs) =
           (if isDegradationActive_m (foldl apply_call lm cs) then FP16 else FP32)"
  using assms
proof (induction cs arbitrary: lm)
  case Nil
  then show ?case by simp
next
  case (Cons c cs)
  from apply_call_invariant [OF Cons.prems, of c]
  have "isPLCActive_m (apply_call lm c) = isDegradationActive_m (apply_call lm c)"
    and "currentRVCPrecision_m (apply_call lm c) =
           (if isDegradationActive_m (apply_call lm c) then FP16 else FP32)"
    by simp_all
  from Cons.IH [OF this] show ?case by simp
qed

text \<open>
  Claim C3. In every state that a sequence of forceDegradation and restorePerformance
  calls reaches from the constructed controller, the concealment flag is set exactly when
  the mode is Degraded, and the precision is FP16 when Degraded and FP32 when Normal.
\<close>

theorem stability_invariant_reachable:
  "isPLCActive (after_calls cs) = isDegradationModeActive (after_calls cs)
   \<and> getCurrentPrecision (after_calls cs) =
       (if isDegradationModeActive (after_calls cs) then FP16 else FP32)"
  unfolding isPLCActive_def isDegradationModeActive_def getCurrentPrecision_def after_calls_def
  by (rule foldl_apply_call_invariant) (simp_all add: LockManager_new_def)

theorem stability_invariant_reachable_witness:
  "isDegradationModeActive (after_calls [ForceDegradation, RestorePerformance, ForceDegradation])
   \<and> isPLCActive (after_calls [ForceDegradation, RestorePerformance, ForceDegradation])
   \<and> getCurrentPrecision (after_calls [ForceDegradation, RestorePerformance, ForceDegradation]) = FP16
   \<and> \<not> isDegradationModeActive (after_calls [ForceDegradation, RestorePerformance])
   \<and> \<not> isPLCActive (after_calls [ForceDegradation, RestorePerformance])
   \<and> getCurrentPrecision (after_calls [ForceDegradation, RestorePerformance]) = FP32"
proof -
  have d1: "isDegradationModeActive (after_calls [ForceDegradation, RestorePerformance, ForceDegradation])"
    by (simp add: isDegradationModeActive_def after_calls_def LockManager_new_def
        forceDegradation_def restorePerformance_def)
  have d2: "\<not> isDegradationModeActive (after_calls [ForceDegradation, RestorePerformance])"
    by (simp add: isDegradationModeActive_def after_calls_def LockManager_new_def
        forceDegradation_def restorePerformance_def)
  show ?thesis
    using stability_invariant_reachable [of "[ForceDegradation, RestorePerformance, ForceDegradation]"]
      stability_invariant_reachable [of "[ForceDegradation, RestorePerformance]"] d1 d2
    by simp
qed

text \<open>
  Claim C9. forceDegradation is idempotent: on every state of the controller (the
  reachable ones among them) a second call in a row returns the state of the first call
  unchanged, and a history that ends with two calls reaches the same state as with one.
  The function has no failing path.
\<close>

theorem forceDegradation_idempotent:
  "forceDegradation (forceDegradation lm) = forceDegradation lm
   \<and> after_calls (cs @ [ForceDegradation, ForceDegradation]) = after_calls (cs @ [ForceDegradation])"
  by (simp add: after_calls_def forceDegradation_def)

theorem forceDegradation_idempotent_witness:
  "forceDegradation (forceDegradation LockManager_new) = forceDegradation LockManager_new
   \<and> forceDegradation LockManager_new =
       \<lparr>isDegradationActive_m = True, isPLCActive_m = True, currentRVCPrecision_m = FP16\<rparr>
   \<and> after_calls ([RestorePerformance] @ [ForceDegradation, ForceDegradation]) =
       after_calls ([RestorePerformance] @ [ForceDegradation])"
  using forceDegradation_idempotent [of LockManager_new "[RestorePerformance]"]
  by (simp add: forceDegradation_def LockManager_new_def)

section \<open>Delegate selection and model loading\<close>

text \<open>
  Claim C1, as stated, fails on a tie: with DSP and GPU both at 10 ms and CPU at 25 ms
  the rule of the claim selects DSP, and the code, whose comparisons are strict, GPU.
\<close>

theorem selectDelegate_tie_counterexample:
  "spec_selectDelegate 10 10 25 = DSP \<and> selectDelegate (Fin 10) (Fin 10) (Fin 25) = GPU"
  by (simp add: spec_selectDelegate_def selectDelegate_def)

text \<open>
  Claim C1, amended. For finite latencies the selection returns the delegate with the
  lowest latency, provided that latency is within 20 ms, and CPU otherwise; a tie goes to
  the delegate checked last (CPU before GPU before DSP), since a delegate is taken only
  when it is strictly faster than those after it. Whenever no two latencies are equal,
  this is the rule of the claim. loadModel stores the selection made from the two
  backend benchmarks and the fixed CPU time of 25 ms.
\<close>

theorem selectDelegate_lowest_within_ceiling:
  "selectDelegate (Fin dspTime) (Fin gpuTime) (Fin cpuTime) =
     (let lowest = min dspTime (min gpuTime cpuTime)
      in if \<not> lowest \<le> 20 then CPU
         else if cpuTime = lowest then CPU
         else if gpuTime = lowest then GPU
         else DSP)
   \<and> (dspTime \<noteq> gpuTime \<and> dspTime \<noteq> cpuTime \<and> gpuTime \<noteq> cpuTime \<longrightarrow>
        selectDelegate (Fin dspTime) (Fin gpuTime) (Fin cpuTime) =
          spec_selectDelegate dspTime gpuTime cpuTime)
   \<and> currentDelegate_m (snd (loadModel m modelPath bufferSize sampleRate)) =
        selectDelegate (engine_benchmark (tfliteEngine_m m)) (engine_benchmark (onnxEngine_m m))
          (Fin 25)"
proof -
  have a: "selectDelegate (Fin dspTime) (Fin gpuTime) (Fin cpuTime) =
     (let lowest = min dspTime (min gpuTime cpuTime)
      in if \<not> lowest \<le> 20 then CPU
         else if cpuTime = lowest then CPU
         else if gpuTime = lowest then GPU
         else DSP)"
    by (auto simp: selectDelegate_def Let_def min_def)
  have b: "selectDelegate (Fin dspTime) (Fin gpuTime) (Fin cpuTime) =
          spec_selectDelegate dspTime gpuTime cpuTime"
    if "dspTime \<noteq> gpuTime \<and> dspTime \<noteq> cpuTime \<and> gpuTime \<noteq> cpuTime"
    using that by (auto simp: selectDelegate_def spec_selectDelegate_def Let_def min_def)
  have c: "currentDelegate_m (snd (loadModel m modelPath bufferSize sampleRate)) =
        selectDelegate (engine_benchmark (tfliteEngine_m m)) (engine_benchmark (onnxEngine_m m))
          (Fin 25)"
    by (simp add: loadModel_def benchmarkAllDelegates_def unloadModel_def Let_def
        split: prod.splits)
  from a b c show ?thesis by blast
qed

theorem selectDelegate_lowest_within_ceiling_witness:
  "selectDelegate (Fin 15) (Fin 18) (Fin 25) = DSP
   \<and> spec_selectDelegate 15 18 25 = DSP
   \<and> (15::real) \<noteq> 18 \<and> (15::real) \<noteq> 25 \<and> (18::real) \<noteq> 25
   \<and> currentDelegate_m (snd (loadModel
        \<lparr>tfliteEngine_m = TFLiteEngine, onnxEngine_m = ONNXEngine, isModelLoaded_m = False,
         currentModelPath_m = [], currentEngine_m = EngineType_ONNX, currentDelegate_m = CPU\<rparr>
        ''voice.tflite'' 4096 48000)) = DSP"
  using selectDelegate_lowest_within_ceiling [of 15 18 25
        "\<lparr>tfliteEngine_m = TFLiteEngine, onnxEngine_m = ONNXEngine, isModelLoaded_m = False,
         currentModelPath_m = [], currentEngine_m = EngineType_ONNX, currentDelegate_m = CPU\<rparr>"
        "''voice.tflite''" 4096 48000]
  by (simp add: spec_selectDelegate_def TFLiteEngine_def ONNXEngine_def selectDelegate_def)

text \<open>The second example of the specification: all three latencies above the ceiling.\<close>

lemma selectDelegate_all_above_ceiling:
  "selectDelegate (Fin 25) (Fin 22) (Fin 25) = CPU"
  by (simp add: selectDelegate_def)

text \<open>
  Claim C2, as stated, fails: loadModel unloads the loaded model before it looks at the
  suffix. With \<^verbatim>\<open>voice.onnx\<close> loaded, the call on \<^verbatim>\<open>voice.xyz\<close> returns false
  and leaves the loaded flag cleared and the rejected path in the path field.
\<close>

theorem loadModel_unknown_suffix_counterexample:
  "isModelLoaded_m
     \<lparr>tfliteEngine_m = TFLiteEngine, onnxEngine_m = ONNXEngine, isModelLoaded_m = True,
      currentModelPath_m = ''voice.onnx'', currentEngine_m = EngineType_ONNX,
      currentDelegate_m = DSP\<rparr>
   \<and> determineModelType ''voice.xyz'' = ModelType_UNKNOWN
   \<and> fst (loadModel
        \<lparr>tfliteEngine_m = TFLiteEngine, onnxEngine_m = ONNXEngine, isModelLoaded_m = True,
         currentModelPath_m = ''voice.onnx'', currentEngine_m = EngineType_ONNX,
         currentDelegate_m = DSP\<rparr> ''voice.xyz'' 4096 48000) = False
   \<and> isModelLoaded_m (snd (loadModel
        \<lparr>tfliteEngine_m = TFLiteEngine, onnxEngine_m = ONNXEngine, isModelLoaded_m = True,
         currentModelPath_m = ''voice.onnx'', currentEngine_m = EngineType_ONNX,
         currentDelegate_m = DSP\<rparr> ''voice.xyz'' 4096 48000)) = False
   \<and> currentModelPath_m (snd (loadModel
        \<lparr>tfliteEngine_m = TFLiteEngine, onnxEngine_m = ONNXEngine, isModelLoaded_m = True,
         currentModelPath_m = ''voice.onnx'', currentEngine_m = EngineType_ONNX,
         currentDelegate_m = DSP\<rparr> ''voice.xyz'' 4096 48000)) = ''voice.xyz''"
  by (simp add: loadModel_def determineModelType_def unloadModel_def Let_def)

text \<open>
  Claim C2, amended. On a path whose suffix is neither recognised one, loadModel returns
  failure and the engine ends with no model loaded: a loaded model is unloaded first, the
  path field takes the rejected path and the delegate field the choice of the benchmark.
  The active engine and the two backends are unchanged.
\<close>

theorem loadModel_unknown_suffix_unloads:
  assumes "isModelLoaded_m m" and "determineModelType modelPath = ModelType_UNKNOWN"
  shows "loadModel m modelPath bufferSize sampleRate =
           (False, m\<lparr>isModelLoaded_m := False, currentModelPath_m := modelPath,
                     currentDelegate_m := benchmarkAllDelegates m modelPath bufferSize sampleRate\<rparr>)
       \<and> currentEngine_m (snd (loadModel m modelPath bufferSize sampleRate)) = currentEngine_m m"
  using assms
  by (simp add: loadModel_def unloadModel_def benchmarkAllDelegates_def Let_def)

theorem loadModel_unknown_suffix_unloads_witness:
  "isModelLoaded_m
     \<lparr>tfliteEngine_m = TFLiteEngine, onnxEngine_m = ONNXEngine, isModelLoaded_m = True,
      currentModelPath_m = ''voice.onnx'', currentEngine_m = EngineType_ONNX,
      currentDelegate_m = GPU\<rparr>
   \<and> determineModelType ''voice.xyz'' = ModelType_UNKNOWN
   \<and> loadModel
        \<lparr>tfliteEngine_m = TFLiteEngine, onnxEngine_m = ONNXEngine, isModelLoaded_m = True,
         currentModelPath_m = ''voice.onnx'', currentEngine_m = EngineType_ONNX,
         currentDelegate_m = GPU\<rparr> ''voice.xyz'' 4096 48000 =
       (False,
        \<lparr>tfliteEngine_m = TFLiteEngine, onnxEngine_m = ONNXEngine, isModelLoaded_m = False,
         currentModelPath_m = ''voice.xyz'', currentEngine_m = EngineType_ONNX,
         currentDelegate_m = DSP\<rparr>)"
proof -
  have u: "determineModelType ''voice.xyz'' = ModelType_UNKNOWN"
    by (simp add: determineModelType_def)
  have b: "benchmarkAllDelegates
     \<lparr>tfliteEngine_m = TFLiteEngine, onnxEngine_m = ONNXEngine, isModelLoaded_m = True,
      currentModelPath_m = ''voice.onnx'', currentEngine_m = EngineType_ONNX,
      currentDelegate_m = GPU\<rparr> ''voice.xyz'' 4096 48000 = DSP"
    by (simp add: benchmarkAllDelegates_def selectDelegate_def TFLiteEngine_def ONNXEngine_def)
  show ?thesis
    using loadModel_unknown_suffix_unloads [of
        "\<lparr>tfliteEngine_m = TFLiteEngine, onnxEngine_m = ONNXEngine, isModelLoaded_m = True,
         currentModelPath_m = ''voice.onnx'', currentEngine_m = EngineType_ONNX,
         currentDelegate_m = GPU\<rparr>" "''voice.xyz''" 4096 48000] u b
    by simp
qed

text \<open>
  The recognised suffixes, for comparison: a load of a \<^verbatim>\<open>.tflite\<close> or \<^verbatim>\<open>.onnx\<close>
  path on the stub backends succeeds and replaces the previous model.
\<close>

lemma loadModel_recognised_suffix:
  "determineModelType ''a.tflite'' = ModelType_TFLITE
   \<and> determineModelType ''voice.onnx'' = ModelType_ONNX
   \<and> determineModelType ''.onnx'' = ModelType_ONNX
   \<and> determineModelType ''onnx'' = ModelType_UNKNOWN"
  by (simp add: determineModelType_def)

text \<open>
  Claim C8. Without a loaded model runInference returns at once: the buffer comes back
  as it was, whatever the transforms of the two backends are and whatever the sample
  count is.
\<close>

theorem runInference_not_loaded_untouched:
  assumes "\<not> isModelLoaded_m m"
  shows "runInference m buffer numSamples = buffer"
  using assms by (simp add: runInference_def)

theorem runInference_not_loaded_untouched_witness:
  "\<not> isModelLoaded_m
       \<lparr>tfliteEngine_m = TFLiteEngine\<lparr>engine_run := MultibandCompressor_process\<rparr>,
        onnxEngine_m = ONNXEngine, isModelLoaded_m = False,
        currentModelPath_m = [], currentEngine_m = EngineType_TFLITE,
        currentDelegate_m = DSP\<rparr>
   \<and> runInference
       \<lparr>tfliteEngine_m = TFLiteEngine\<lparr>engine_run := MultibandCompressor_process\<rparr>,
        onnxEngine_m = ONNXEngine, isModelLoaded_m = False,
        currentModelPath_m = [], currentEngine_m = EngineType_TFLITE,
        currentDelegate_m = DSP\<rparr> [Fin 2, NaN] 2 = [Fin 2, NaN]
   \<and> runInference
       \<lparr>tfliteEngine_m = TFLiteEngine\<lparr>engine_run := MultibandCompressor_process\<rparr>,
        onnxEngine_m = ONNXEngine, isModelLoaded_m = True,
        currentModelPath_m = ''a.tflite'', currentEngine_m = EngineType_TFLITE,
        currentDelegate_m = DSP\<rparr> [Fin 2, NaN] 2 =
       [Fin (4152361 / 4194304), Fin (4152361 / 4194304)]"
proof -
  have ev: "MultibandCompressor_process [Fin 2, NaN] 2 =
      [Fin (4152361 / 4194304), Fin (4152361 / 4194304)]"
    by (simp add: MultibandCompressor_process_def compressor_loop.simps
        std_max_def std_min_def limit_value)
  show ?thesis
    using runInference_not_loaded_untouched [of
       "\<lparr>tfliteEngine_m = TFLiteEngine\<lparr>engine_run := MultibandCompressor_process\<rparr>,
        onnxEngine_m = ONNXEngine, isModelLoaded_m = False,
        currentModelPath_m = [], currentEngine_m = EngineType_TFLITE,
        currentDelegate_m = DSP\<rparr>" "[Fin 2, NaN]" 2] ev
    by (simp add: runInference_def TFLiteEngine_def)
qed

section \<open>The noise suppressor\<close>

text \<open>
  The loop of NoiseSuppressor::process from index \<open>i \<ge> 1\<close> on. It keeps the length; the
  sample written at \<open>j\<close> combines the sample read at \<open>j\<close> with the sample already
  written at \<open>j - 1\<close>; the samples before \<open>i\<close> and from \<open>numSamples\<close> on are kept.
\<close>

lemma ns_loop_length: "length (ns_loop b n i) = length b"
  by (induction b n i rule: ns_loop.induct) (subst ns_loop.simps, simp)

lemma ns_loop_nth:
  "n \<le> length b \<Longrightarrow> 1 \<le> i \<Longrightarrow> j < length b \<Longrightarrow>
     ns_loop b n i ! j =
       (if i \<le> j \<and> j < n
        then fadd (fmul (b ! j) (round32 0.95)) (fmul (ns_loop b n i ! (j - 1)) (round32 0.05))
        else b ! j)"
proof (induction b n i arbitrary: j rule: ns_loop.induct)
  case (1 buffer numSamples i)
  show ?case
  proof (cases "i < numSamples")
    case False
    then show ?thesis by (subst ns_loop.simps) auto
  next
    case True
    let ?v = "fadd (fmul (buffer ! i) (round32 0.95)) (fmul (buffer ! (i - 1)) (round32 0.05))"
    let ?b' = "buffer[i := ?v]"
    have unfold: "ns_loop buffer numSamples i = ns_loop ?b' numSamples (Suc i)"
      using True by (subst ns_loop.simps) simp
    have len: "numSamples \<le> length ?b'"
      using "1.prems" by simp
    have IH: "ns_loop ?b' numSamples (Suc i) ! k =
       (if Suc i \<le> k \<and> k < numSamples
        then fadd (fmul (?b' ! k) (round32 0.95)) (fmul (ns_loop ?b' numSamples (Suc i) ! (k - 1)) (round32 0.05))
        else ?b' ! k)" if "k < length buffer" for k
      using "1.IH" [OF True len, of k] that by simp
    have IH_out: "ns_loop ?b' numSamples (Suc i) ! k = ?b' ! k"
      if "k < length buffer" and "k \<le> i \<or> numSamples \<le> k" for k
    proof -
      from that(2) have "\<not> (Suc i \<le> k \<and> k < numSamples)" by arith
      with IH [OF that(1)] show ?thesis by (simp only: if_False simp_thms)
    qed
    have IH_in: "ns_loop ?b' numSamples (Suc i) ! k =
        fadd (fmul (?b' ! k) (round32 0.95)) (fmul (ns_loop ?b' numSamples (Suc i) ! (k - 1)) (round32 0.05))"
      if "k < length buffer" and "i < k" and "k < numSamples" for k
    proof -
      from that have "Suc i \<le> k \<and> k < numSamples" by arith
      with IH [OF that(1)] show ?thesis by (simp only: if_True simp_thms)
    qed
    have i_len: "i < length buffer" using True "1.prems" by simp
    have prev: "ns_loop ?b' numSamples (Suc i) ! (i - 1) = buffer ! (i - 1)"
    proof -
      have "i - 1 < length buffer" "i - 1 \<le> i \<or> numSamples \<le> i - 1" "i - 1 \<noteq> i"
        using i_len "1.prems"(2) by simp_all
      with IH_out [of "i - 1"] show ?thesis by simp
    qed
    consider "j < i" | "j = i" | "i < j \<and> j < numSamples" | "numSamples \<le> j"
      by linarith
    then show ?thesis
    proof cases
      case 1
      with IH_out [of j] "1.prems" show ?thesis by (simp add: unfold)
    next
      case 2
      have "ns_loop ?b' numSamples (Suc i) ! i = ?v"
        using IH_out [of i] i_len by simp
      with 2 True prev show ?thesis by (simp add: unfold)
    next
      case 3
      with IH_in [of j] "1.prems" show ?thesis by (simp add: unfold)
    next
      case 4
      with IH_out [of j] "1.prems" True show ?thesis by (simp add: unfold)
    qed
  qed
qed

lemma ns_loop_take:
  "n \<le> length b \<Longrightarrow> take n (ns_loop b n i) = ns_loop (take n b) n i"
proof (induction b n i rule: ns_loop.induct)
  case (1 buffer numSamples i)
  show ?case
  proof (cases "i < numSamples")
    case False
    then show ?thesis by (simp add: ns_loop.simps [of _ numSamples i])
  next
    case True
    with 1 show ?thesis
      by (simp add: ns_loop.simps [of _ numSamples i] take_update_swap)
  qed
qed

lemma NoiseSuppressor_process_nth:
  assumes "n \<le> length b" and "j < length b"
  shows "NoiseSuppressor_process b n ! j =
       (if 1 \<le> j \<and> j < n
        then fadd (fmul (b ! j) (Fin (15938355 / 16777216)))
               (fmul (NoiseSuppressor_process b n ! (j - 1)) (Fin (13421773 / 268435456)))
        else b ! j)"
proof -
  have "ns_loop b n 1 ! j =
       (if 1 \<le> j \<and> j < n
        then fadd (fmul (b ! j) (round32 0.95)) (fmul (ns_loop b n 1 ! (j - 1)) (round32 0.05))
        else b ! j)"
    by (rule ns_loop_nth) (use assms in simp_all)
  then show ?thesis
    by (simp only: NoiseSuppressor_process_def round32_0_95 round32_0_05)
qed

lemma NoiseSuppressor_process_length: "length (NoiseSuppressor_process b n) = length b"
  by (simp add: NoiseSuppressor_process_def ns_loop_length)

lemma NoiseSuppressor_process_short:
  "n \<le> 1 \<Longrightarrow> NoiseSuppressor_process b n = b"
  unfolding NoiseSuppressor_process_def by (subst ns_loop.simps) simp

text \<open>The roundings that the examples below go through.\<close>

lemma round32_coefficients:
  "round32 (19 / 20) = Fin (15938355 / 16777216)"
  "round32 (1 / 20) = Fin (13421773 / 268435456)"
  using round32_0_95 round32_0_05 by simp_all

lemma round32_examples:
  "round32 (15938355 / 16777216) = Fin (15938355 / 16777216)"
  "round32 (13421773 / 268435456) = Fin (13421773 / 268435456)"
  "round32 (15938355 / 8388608) = Fin (15938355 / 8388608)"
  "round32 (523449133 / 268435456) = Fin (16357785 / 8388608)"
  "round32 (219550477052805 / 2251799813685248) = Fin (3271557 / 33554432)"
  "round32 (3271557 / 33554432) = Fin (3271557 / 33554432)"
proof -
  show "round32 (15938355 / 16777216) = Fin (15938355 / 16777216)"
    by (subst round32_normal [of 128]) (simp_all add: round_half_even_def Let_def)
  show "round32 (13421773 / 268435456) = Fin (13421773 / 268435456)"
    by (subst round32_normal [of 132]) (simp_all add: round_half_even_def Let_def)
  show "round32 (15938355 / 8388608) = Fin (15938355 / 8388608)"
    by (subst round32_normal [of 127]) (simp_all add: round_half_even_def Let_def)
  show "round32 (523449133 / 268435456) = Fin (16357785 / 8388608)"
    by (subst round32_normal [of 127]) (simp_all add: round_half_even_def Let_def)
  show "round32 (219550477052805 / 2251799813685248) = Fin (3271557 / 33554432)"
    by (subst round32_normal [of 131]) (simp_all add: round_half_even_def Let_def)
  show "round32 (3271557 / 33554432) = Fin (3271557 / 33554432)"
    by (subst round32_normal [of 131]) (simp_all add: round_half_even_def Let_def)
qed

text \<open>
  Claim C6, as stated, fails: no fixed \<open>\<alpha>\<close> makes the output
  \<open>\<alpha> * x[i] + (1 - \<alpha>) * y[i-1]\<close>. On the samples 0, 1 the second output is the weight
  of \<open>x[i]\<close>, the binary32 number 15938355/16777216 of \<^verbatim>\<open>0.95f\<close>; on 1, 0 it is the
  weight of \<open>y[i-1]\<close>, the binary32 number 13421773/268435456 of \<^verbatim>\<open>0.05f\<close>; the two
  weights add up to less than one. On 1, 2 the sum is rounded as well: the output is
  16357785/8388608, not one plus the first weight.
\<close>

theorem noise_suppressor_exact_recurrence_counterexample:
  "NoiseSuppressor_process [Fin 0, Fin 1] 2 = [Fin 0, Fin (15938355 / 16777216)]
   \<and> NoiseSuppressor_process [Fin 1, Fin 0] 2 = [Fin 1, Fin (13421773 / 268435456)]
   \<and> (15938355 / 16777216 :: real) + 13421773 / 268435456 < 1
   \<and> NoiseSuppressor_process [Fin 1, Fin 2] 2 = [Fin 1, Fin (16357785 / 8388608)]
   \<and> (16357785 / 8388608 :: real) < 1 + 15938355 / 16777216"
  by (simp add: NoiseSuppressor_process_def ns_loop.simps round32_coefficients round32_examples
      round32_0)

text \<open>
  Claim C6, amended. On a buffer \<open>x\<close> of \<open>n\<close> samples the noise suppressor keeps
  \<open>y[0] = x[0]\<close> and writes, for \<open>1 \<le> i < n\<close>, the binary32 sum of the two binary32
  products \<open>x[i] * a\<close> and \<open>y[i-1] * b\<close>, where \<open>a\<close> is the binary32 number
  15938355/16777216 of \<^verbatim>\<open>0.95f\<close> and \<open>b\<close> the binary32 number 13421773/268435456 of
  \<^verbatim>\<open>0.05f\<close>; \<open>b\<close> is not \<open>1 - a\<close>. The right-hand side uses the value already written
  at \<open>i - 1\<close>, so the samples are processed in increasing order. No index outside
  \<open>0 .. n-1\<close> matters: the samples from \<open>n\<close> on are kept, and the first \<open>n\<close> results are
  the same for every buffer with the same first \<open>n\<close> samples. With \<open>n \<le> 1\<close> the buffer is
  returned as it is.
\<close>

theorem noise_suppressor_rounded_recurrence:
  assumes "n \<le> length x"
  shows "length (NoiseSuppressor_process x n) = length x
       \<and> (0 < length x \<longrightarrow> NoiseSuppressor_process x n ! 0 = x ! 0)
       \<and> (\<forall>i. 1 \<le> i \<and> i < n \<longrightarrow>
             NoiseSuppressor_process x n ! i =
               fadd (fmul (x ! i) (Fin (15938355 / 16777216)))
                    (fmul (NoiseSuppressor_process x n ! (i - 1)) (Fin (13421773 / 268435456))))
       \<and> round32 0.95 = Fin (15938355 / 16777216)
       \<and> round32 0.05 = Fin (13421773 / 268435456)
       \<and> (\<forall>i. n \<le> i \<and> i < length x \<longrightarrow> NoiseSuppressor_process x n ! i = x ! i)
       \<and> (\<forall>x'. n \<le> length x' \<and> take n x' = take n x \<longrightarrow>
             take n (NoiseSuppressor_process x' n) = take n (NoiseSuppressor_process x n))
       \<and> (n \<le> 1 \<longrightarrow> NoiseSuppressor_process x n = x)"
proof -
  have len: "length (NoiseSuppressor_process x n) = length x"
    by (rule NoiseSuppressor_process_length)
  have first: "NoiseSuppressor_process x n ! 0 = x ! 0" if "0 < length x"
    using NoiseSuppressor_process_nth [OF assms that] by simp
  have step: "NoiseSuppressor_process x n ! i =
               fadd (fmul (x ! i) (Fin (15938355 / 16777216)))
                    (fmul (NoiseSuppressor_process x n ! (i - 1)) (Fin (13421773 / 268435456)))"
    if "1 \<le> i \<and> i < n" for i
  proof -
    from that assms have "i < length x" by simp
    from NoiseSuppressor_process_nth [OF assms this] that show ?thesis
      by (simp only: if_True simp_thms)
  qed
  have rest: "NoiseSuppressor_process x n ! i = x ! i" if "n \<le> i \<and> i < length x" for i
  proof -
    from that have "i < length x" and "\<not> (1 \<le> i \<and> i < n)" by simp_all
    with NoiseSuppressor_process_nth [OF assms this(1)] show ?thesis
      by (simp only: if_False simp_thms)
  qed
  have indep: "take n (NoiseSuppressor_process x' n) = take n (NoiseSuppressor_process x n)"
    if "n \<le> length x' \<and> take n x' = take n x" for x'
    using assms that by (simp add: NoiseSuppressor_process_def ns_loop_take)
  have short: "NoiseSuppressor_process x n = x" if "n \<le> 1"
    using that by (rule NoiseSuppressor_process_short)
  from len first step rest indep short round32_0_95 round32_0_05 show ?thesis by blast
qed

theorem noise_suppressor_rounded_recurrence_witness:
  "(3::nat) \<le> length [Fin 1, Fin 2, Fin 0, Fin 7]
   \<and> NoiseSuppressor_process [Fin 1, Fin 2, Fin 0, Fin 7] 3 ! 0 = Fin 1
   \<and> NoiseSuppressor_process [Fin 1, Fin 2, Fin 0, Fin 7] 3 ! 1 = Fin (16357785 / 8388608)
   \<and> NoiseSuppressor_process [Fin 1, Fin 2, Fin 0, Fin 7] 3 ! 2 = Fin (3271557 / 33554432)
   \<and> NoiseSuppressor_process [Fin 1, Fin 2, Fin 0, Fin 7] 3 ! 3 = Fin 7
   \<and> take 3 (NoiseSuppressor_process [Fin 1, Fin 2, Fin 0, NaN, PInf] 3) =
       take 3 (NoiseSuppressor_process [Fin 1, Fin 2, Fin 0, Fin 7] 3)"
proof -
  let ?x = "[Fin 1, Fin 2, Fin 0, Fin 7]"
  let ?y = "NoiseSuppressor_process ?x 3"
  have h: "(3::nat) \<le> length ?x" by simp
  note w = noise_suppressor_rounded_recurrence [OF h]
  from w have first: "0 < length ?x \<longrightarrow> ?y ! 0 = ?x ! 0"
    by (rule conjunct2 [THEN conjunct1])
  from w have step: "\<forall>i. 1 \<le> i \<and> i < 3 \<longrightarrow>
      ?y ! i = fadd (fmul (?x ! i) (Fin (15938355 / 16777216)))
                 (fmul (?y ! (i - 1)) (Fin (13421773 / 268435456)))"
    by (rule conjunct2 [THEN conjunct2, THEN conjunct1])
  from w have rest: "\<forall>i. 3 \<le> i \<and> i < length ?x \<longrightarrow> ?y ! i = ?x ! i"
    by (rule conjunct2 [THEN conjunct2, THEN conjunct2, THEN conjunct2, THEN conjunct2,
          THEN conjunct1])
  from w have indep: "\<forall>x'. 3 \<le> length x' \<and> take 3 x' = take 3 ?x \<longrightarrow>
      take 3 (NoiseSuppressor_process x' 3) = take 3 ?y"
    by (rule conjunct2 [THEN conjunct2, THEN conjunct2, THEN conjunct2, THEN conjunct2,
          THEN conjunct2, THEN conjunct1])
  have y0: "?y ! 0 = Fin 1"
    using first by simp
  have "?y ! 1 = fadd (fmul (?x ! 1) (Fin (15938355 / 16777216)))
                   (fmul (?y ! (1 - 1)) (Fin (13421773 / 268435456)))"
    using step [rule_format, of 1] by simp
  then have y1: "?y ! 1 = Fin (16357785 / 8388608)"
    using y0 by (simp add: round32_examples)
  have "?y ! 2 = fadd (fmul (?x ! 2) (Fin (15938355 / 16777216)))
                   (fmul (?y ! (2 - 1)) (Fin (13421773 / 268435456)))"
    using step [rule_format, of 2] by simp
  then have y2: "?y ! 2 = Fin (3271557 / 33554432)"
    using y1 by (simp add: round32_examples round32_0)
  have y3: "?y ! 3 = Fin 7"
    using rest [rule_format, of 3] by simp
  have t: "take 3 (NoiseSuppressor_process [Fin 1, Fin 2, Fin 0, NaN, PInf] 3) = take 3 ?y"
    using indep [rule_format, of "[Fin 1, Fin 2, Fin 0, NaN, PInf]"] by simp
  from h y0 y1 y2 y3 t show ?thesis by blast
qed

section \<open>The gate, the concealer and invalid samples\<close>

lemma aec_loop_length: "length (aec_loop b n i) = length b"
  by (induction b n i rule: aec_loop.induct) (subst aec_loop.simps, simp)

lemma aec_loop_nth:
  "j < length b \<Longrightarrow>
     aec_loop b n i ! j =
       (if i \<le> j \<and> j < n then (if flt (fabs (b ! j)) threshold then Fin 0 else b ! j)
        else b ! j)"
proof (induction b n i rule: aec_loop.induct)
  case (1 buffer numSamples i)
  show ?case
  proof (cases "i < numSamples")
    case True
    with 1 show ?thesis
      by (subst aec_loop.simps) (cases "j = i"; simp)
  next
    case False
    then show ?thesis by (subst aec_loop.simps) auto
  qed
qed

lemma plc_loop_length: "length (plc_loop b n i) = length b"
  by (induction b n i rule: plc_loop.induct) (subst plc_loop.simps, simp)

lemma plc_loop_nth:
  "j < length b \<Longrightarrow>
     plc_loop b n i ! j =
       (if i \<le> j \<and> j < n
        then fmul (b ! j) (fsub (Fin 1) (fdiv (float_of_size j) (float_of_size n)))
        else b ! j)"
proof (induction b n i rule: plc_loop.induct)
  case (1 buffer numSamples i)
  show ?case
  proof (cases "i < numSamples")
    case True
    with 1 show ?thesis
      by (subst plc_loop.simps) (cases "j = i"; simp)
  next
    case False
    then show ?thesis by (subst plc_loop.simps) auto
  qed
qed

lemma AcousticEchoCanceller_process_length:
  "length (AcousticEchoCanceller_process b n) = length b"
  by (simp add: AcousticEchoCanceller_process_def aec_loop_length)

lemma PacketLossConcealer_process_length:
  "length (PacketLossConcealer_process p b n) = length b"
  by (simp add: PacketLossConcealer_process_def plc_loop_length)

lemma AcousticEchoCanceller_process_nth:
  "j < length b \<Longrightarrow>
     AcousticEchoCanceller_process b n ! j =
       (if j < n \<and> flt (fabs (b ! j)) threshold then Fin 0 else b ! j)"
  by (simp add: AcousticEchoCanceller_process_def aec_loop_nth)

lemma PacketLossConcealer_process_nth:
  "j < length b \<Longrightarrow>
     PacketLossConcealer_process p b n ! j =
       (if isActive p \<and> j < n
        then fmul (b ! j) (fsub (Fin 1) (fdiv (float_of_size j) (float_of_size n)))
        else b ! j)"
  by (simp add: PacketLossConcealer_process_def plc_loop_nth)

text \<open>A NaN operand makes the result NaN, on either side.\<close>

lemma fadd_NaN_right: "fadd a NaN = NaN"
  by (cases a) simp_all

lemma fmul_NaN_right: "fmul a NaN = NaN"
  by (cases a) simp_all

text \<open>One half and 1/2048 are binary32 numbers; the small sample counts convert exactly.\<close>

lemma round32_powers:
  "round32 (1 / 2) = Fin (1 / 2)"
  "round32 (1 / 2048) = Fin (1 / 2048)"
proof -
  show "round32 (1 / 2) = Fin (1 / 2)"
    by (subst round32_normal [of 128]) (simp_all add: round_half_even_def Let_def)
  show "round32 (1 / 2048) = Fin (1 / 2048)"
    by (subst round32_normal [of 138]) (simp_all add: round_half_even_def Let_def)
qed

lemma float_of_size_small:
  "float_of_size 0 = Fin 0" "float_of_size (Suc 0) = Fin 1" "float_of_size 2 = Fin 2"
  by (simp_all add: float_of_size_def round32_0 round32_1 round32_2)

text \<open>
  Claim C7, as stated, fails: no stage tests for NaN, and each of them changes some
  buffer that holds a NaN. The limiter turns the NaN itself into \<^verbatim>\<open>limit\<close>; the gate,
  the noise suppressor and the active concealer change the sample next to it.
\<close>

theorem stage_NaN_passthrough_counterexample:
  "MultibandCompressor_process [NaN] 1 = [Fin (4152361 / 4194304)]
   \<and> AcousticEchoCanceller_process [NaN, Fin (1 / 1024)] 2 = [NaN, Fin 0]
   \<and> NoiseSuppressor_process [NaN, Fin 1] 2 = [NaN, NaN]
   \<and> PacketLossConcealer_process \<lparr>isActive = True\<rparr> [NaN, Fin 1] 2 = [NaN, Fin (1 / 2)]"
  by (simp add: MultibandCompressor_process_def compressor_loop.simps std_max_def std_min_def
      limit_value AcousticEchoCanceller_process_def aec_loop.simps threshold_value
      NoiseSuppressor_process_def ns_loop.simps
      PacketLossConcealer_process_def plc_loop.simps fsub_def float_of_size_small
      round32_powers round32_1 fadd_NaN_right)

text \<open>
  Claim C7, amended. On a buffer that holds a NaN every stage still returns a buffer of
  the same length and raises nothing (the stages are total functions with no error
  path), but none of them falls back to pass-through: at every index the stage writes
  what it writes on any other buffer. The gate writes zero where the absolute value is
  below the threshold and keeps the sample elsewhere; the noise suppressor writes the
  rounded recurrence from index 1 on; the compressor/limiter writes the clamped sample;
  the concealer, while active, writes the sample times its fade factor. Hence the NaN
  sample itself stays NaN through the gate, the noise suppressor and the concealer, and
  the compressor/limiter replaces it by \<^verbatim>\<open>limit\<close>, the binary32 number 4152361/4194304.
\<close>

theorem stage_NaN_processed_as_usual:
  assumes "numSamples \<le> length buffer" and "i < numSamples" and "buffer ! i = NaN"
  shows "length (AcousticEchoCanceller_process buffer numSamples) = length buffer
       \<and> length (NoiseSuppressor_process buffer numSamples) = length buffer
       \<and> length (MultibandCompressor_process buffer numSamples) = length buffer
       \<and> length (PacketLossConcealer_process p buffer numSamples) = length buffer
       \<and> (\<forall>j. j < length buffer \<longrightarrow>
             AcousticEchoCanceller_process buffer numSamples ! j =
               (if j < numSamples \<and> flt (fabs (buffer ! j)) threshold then Fin 0
                else buffer ! j))
       \<and> (\<forall>j. j < length buffer \<longrightarrow>
             NoiseSuppressor_process buffer numSamples ! j =
               (if 1 \<le> j \<and> j < numSamples
                then fadd (fmul (buffer ! j) (Fin (15938355 / 16777216)))
                       (fmul (NoiseSuppressor_process buffer numSamples ! (j - 1))
                          (Fin (13421773 / 268435456)))
                else buffer ! j))
       \<and> (\<forall>j. j < length buffer \<longrightarrow>
             MultibandCompressor_process buffer numSamples ! j =
               (if j < numSamples then std_max (fneg limit) (std_min limit (buffer ! j))
                else buffer ! j))
       \<and> (\<forall>j. j < length buffer \<longrightarrow>
             PacketLossConcealer_process p buffer numSamples ! j =
               (if isActive p \<and> j < numSamples
                then fmul (buffer ! j)
                       (fsub (Fin 1) (fdiv (float_of_size j) (float_of_size numSamples)))
                else buffer ! j))
       \<and> AcousticEchoCanceller_process buffer numSamples ! i = NaN
       \<and> NoiseSuppressor_process buffer numSamples ! i = NaN
       \<and> PacketLossConcealer_process p buffer numSamples ! i = NaN
       \<and> MultibandCompressor_process buffer numSamples ! i = limit
       \<and> limit = Fin (4152361 / 4194304)"
proof -
  from assms have i: "i < length buffer" by simp
  have lens: "length (AcousticEchoCanceller_process buffer numSamples) = length buffer"
    "length (NoiseSuppressor_process buffer numSamples) = length buffer"
    "length (MultibandCompressor_process buffer numSamples) = length buffer"
    "length (PacketLossConcealer_process p buffer numSamples) = length buffer"
    by (simp_all add: AcousticEchoCanceller_process_length NoiseSuppressor_process_length
        MultibandCompressor_process_length PacketLossConcealer_process_length)
  have gate: "\<forall>j. j < length buffer \<longrightarrow>
             AcousticEchoCanceller_process buffer numSamples ! j =
               (if j < numSamples \<and> flt (fabs (buffer ! j)) threshold then Fin 0
                else buffer ! j)"
    using AcousticEchoCanceller_process_nth by blast
  have ns: "\<forall>j. j < length buffer \<longrightarrow>
             NoiseSuppressor_process buffer numSamples ! j =
               (if 1 \<le> j \<and> j < numSamples
                then fadd (fmul (buffer ! j) (Fin (15938355 / 16777216)))
                       (fmul (NoiseSuppressor_process buffer numSamples ! (j - 1))
                          (Fin (13421773 / 268435456)))
                else buffer ! j)"
    using NoiseSuppressor_process_nth [OF assms(1)] by blast
  have comp: "\<forall>j. j < length buffer \<longrightarrow>
             MultibandCompressor_process buffer numSamples ! j =
               (if j < numSamples then std_max (fneg limit) (std_min limit (buffer ! j))
                else buffer ! j)"
    using MultibandCompressor_process_nth by blast
  have plc: "\<forall>j. j < length buffer \<longrightarrow>
             PacketLossConcealer_process p buffer numSamples ! j =
               (if isActive p \<and> j < numSamples
                then fmul (buffer ! j)
                       (fsub (Fin 1) (fdiv (float_of_size j) (float_of_size numSamples)))
                else buffer ! j)"
    using PacketLossConcealer_process_nth by blast
  have g: "AcousticEchoCanceller_process buffer numSamples ! i = NaN"
    using i assms(3) by (simp add: AcousticEchoCanceller_process_nth)
  have n: "NoiseSuppressor_process buffer numSamples ! i = NaN"
    using i assms(3) by (simp add: NoiseSuppressor_process_nth [OF assms(1)])
  have c: "PacketLossConcealer_process p buffer numSamples ! i = NaN"
    using i assms(3) by (simp add: PacketLossConcealer_process_nth)
  have l: "MultibandCompressor_process buffer numSamples ! i = limit"
    using i assms(2,3)
    by (simp add: MultibandCompressor_process_nth std_min_def std_max_def limit_value)
  from lens gate ns comp plc g n c l limit_value show ?thesis by blast
qed

theorem stage_NaN_processed_as_usual_witness:
  "(2::nat) \<le> length [NaN, Fin (1 / 1024)] \<and> (0::nat) < 2 \<and> [NaN, Fin (1 / 1024)] ! 0 = NaN
   \<and> AcousticEchoCanceller_process [NaN, Fin (1 / 1024)] 2 ! 0 = NaN
   \<and> AcousticEchoCanceller_process [NaN, Fin (1 / 1024)] 2 ! 1 = Fin 0
   \<and> NoiseSuppressor_process [NaN, Fin (1 / 1024)] 2 ! 1 = NaN
   \<and> MultibandCompressor_process [NaN, Fin (1 / 1024)] 2 ! 0 = Fin (4152361 / 4194304)
   \<and> MultibandCompressor_process [NaN, Fin (1 / 1024)] 2 ! 1 = Fin (1 / 1024)
   \<and> PacketLossConcealer_process \<lparr>isActive = True\<rparr> [NaN, Fin (1 / 1024)] 2 ! 1 = Fin (1 / 2048)"
proof -
  let ?b = "[NaN, Fin (1 / 1024)]"
  have h: "(2::nat) \<le> length ?b" "(0::nat) < 2" "?b ! 0 = NaN"
    by simp_all
  note w = stage_NaN_processed_as_usual [OF h, of "\<lparr>isActive = True\<rparr>"]
  from w have gate: "\<forall>j. j < length ?b \<longrightarrow>
      AcousticEchoCanceller_process ?b 2 ! j =
        (if j < 2 \<and> flt (fabs (?b ! j)) threshold then Fin 0 else ?b ! j)"
    by blast
  from w have ns: "\<forall>j. j < length ?b \<longrightarrow>
      NoiseSuppressor_process ?b 2 ! j =
        (if 1 \<le> j \<and> j < 2
         then fadd (fmul (?b ! j) (Fin (15938355 / 16777216)))
                (fmul (NoiseSuppressor_process ?b 2 ! (j - 1)) (Fin (13421773 / 268435456)))
         else ?b ! j)"
    by blast
  from w have comp: "\<forall>j. j < length ?b \<longrightarrow>
      MultibandCompressor_process ?b 2 ! j =
        (if j < 2 then std_max (fneg limit) (std_min limit (?b ! j)) else ?b ! j)"
    by blast
  from w have plc: "\<forall>j. j < length ?b \<longrightarrow>
      PacketLossConcealer_process \<lparr>isActive = True\<rparr> ?b 2 ! j =
        (if isActive \<lparr>isActive = True\<rparr> \<and> j < 2
         then fmul (?b ! j) (fsub (Fin 1) (fdiv (float_of_size j) (float_of_size 2)))
         else ?b ! j)"
    by blast
  have g0: "AcousticEchoCanceller_process ?b 2 ! 0 = NaN"
    using gate [rule_format, of 0] by simp
  have g1: "AcousticEchoCanceller_process ?b 2 ! 1 = Fin 0"
    using gate [rule_format, of 1] by (simp add: threshold_value)
  have n0: "NoiseSuppressor_process ?b 2 ! 0 = NaN"
    using ns [rule_format, of 0] by simp
  have n1: "NoiseSuppressor_process ?b 2 ! 1 = NaN"
    using ns [rule_format, of 1] n0 by (simp add: fadd_NaN_right)
  have c0: "MultibandCompressor_process ?b 2 ! 0 = Fin (4152361 / 4194304)"
    using comp [rule_format, of 0] by (simp add: std_max_def std_min_def limit_value)
  have c1: "MultibandCompressor_process ?b 2 ! 1 = Fin (1 / 1024)"
    using comp [rule_format, of 1] by (simp add: std_max_def std_min_def limit_value)
  have p1: "PacketLossConcealer_process \<lparr>isActive = True\<rparr> ?b 2 ! 1 = Fin (1 / 2048)"
    using plc [rule_format, of 1]
    by (simp add: fsub_def float_of_size_small round32_powers)
  from h g0 g1 n1 c0 c1 p1 show ?thesis by blast
qed

section \<open>Post-processing\<close>

text \<open>
  Claim C5. On a constructed graph (\<^verbatim>\<open>isInitialized_\<close> is set by the constructor and
  never cleared) applyPostProcessing branches on the concealment flag of the controller
  alone, for every buffer and every state of the controller. With the flag set, the
  concealer is activated and the buffer returned is the concealer's fade of the input:
  the limiter has not touched it. With the flag clear, the concealer is deactivated and
  not called, the buffer returned is the limiter's output, and the concealer left behind
  is one whose process changes no buffer.
\<close>

theorem applyPostProcessing_branches_on_concealment:
  assumes "isInitialized_m g"
  shows "(isPLCActive lm \<longrightarrow>
            applyPostProcessing lm g buffer numSamples =
              (g\<lparr>plc_m := activate (plc_m g)\<rparr>, plc_loop buffer numSamples 0)
          \<and> isActive (plc_m (fst (applyPostProcessing lm g buffer numSamples))))
       \<and> (\<not> isPLCActive lm \<longrightarrow>
            applyPostProcessing lm g buffer numSamples =
              (g\<lparr>plc_m := deactivate (plc_m g)\<rparr>, MultibandCompressor_process buffer numSamples)
          \<and> \<not> isActive (plc_m (fst (applyPostProcessing lm g buffer numSamples)))
          \<and> PacketLossConcealer_process
               (plc_m (fst (applyPostProcessing lm g buffer numSamples))) buffer' numSamples' =
               buffer')"
  using assms
  by (simp add: applyPostProcessing_def PacketLossConcealer_process_def activate_def
      deactivate_def Let_def)

theorem applyPostProcessing_branches_on_concealment_witness:
  "isInitialized_m (FXGraph_new 48000)
   \<and> isPLCActive (forceDegradation LockManager_new)
   \<and> snd (applyPostProcessing (forceDegradation LockManager_new) (FXGraph_new 48000)
            [Fin 2, Fin 2] 2) = [Fin 2, Fin 1]
   \<and> \<not> isPLCActive LockManager_new
   \<and> snd (applyPostProcessing LockManager_new (FXGraph_new 48000) [Fin 2, Fin 2] 2) =
        [Fin (4152361 / 4194304), Fin (4152361 / 4194304)]"
proof -
  have i: "isInitialized_m (FXGraph_new 48000)"
    by (simp add: FXGraph_new_def)
  have a: "isPLCActive (forceDegradation LockManager_new)"
    by (simp add: isPLCActive_def forceDegradation_def LockManager_new_def)
  have n: "\<not> isPLCActive LockManager_new"
    by (simp add: isPLCActive_def LockManager_new_def)
  have fade: "plc_loop [Fin 2, Fin 2] 2 0 = [Fin 2, Fin 1]"
    by (simp add: plc_loop.simps fsub_def float_of_size_small round32_powers round32_0
        round32_1 round32_2)
  have clip: "MultibandCompressor_process [Fin 2, Fin 2] 2 =
      [Fin (4152361 / 4194304), Fin (4152361 / 4194304)]"
    by (simp add: MultibandCompressor_process_def compressor_loop.simps
        std_max_def std_min_def limit_value)
  show ?thesis
    using applyPostProcessing_branches_on_concealment [OF i, of "forceDegradation LockManager_new"
        "[Fin 2, Fin 2]" 2]
      applyPostProcessing_branches_on_concealment [OF i, of LockManager_new "[Fin 2, Fin 2]" 2]
      i a n fade clip
    by simp
qed

end
